theory Spec2Isabelle
  imports Complex_Main "HOL-Library.Word" "HOL-Library.Multiset" "HOL-Library.Code_Target_Nat"
begin

section \<open>Data model\<close>

text \<open>
  The Python exceptions raised along the modelled paths. The specification's
  InvalidArgument is Python's \<open>ValueError\<close> (unknown method name), its UndefinedState is
  scikit-learn's \<open>NotFittedError\<close>.
\<close>

datatype error = ValueError | IndexError | NotFittedError

text \<open>
  A two-dimensional \<open>numpy.ndarray\<close>: the column count is kept beside the list of rows,
  because an array of shape \<open>(0, f)\<close> still has \<open>f\<close> columns. Cells are real numbers:
  float64 is idealised, so rounding, overflow and NaN are outside the model.
\<close>

datatype ndarray = Array2 (ncols: nat) (rowlist: "real list list")

definition nrows :: "ndarray \<Rightarrow> nat" where
  "nrows X = length (rowlist X)"

definition shape :: "ndarray \<Rightarrow> nat \<times> nat" where
  "shape X = (nrows X, ncols X)"

definition rectangular :: "ndarray \<Rightarrow> bool" where
  "rectangular X = list_all (\<lambda>r. length r = ncols X) (rowlist X)"

text \<open>\<open>X[:, j]\<close>, read with \<open>j\<close> below the column count.\<close>

definition column :: "ndarray \<Rightarrow> nat \<Rightarrow> real list" where
  "column X j = map (\<lambda>r. r ! j) (rowlist X)"

text \<open>
  \<open>S[:, j] = col\<close>: numpy stores a column of the array's row count cell by cell,
  broadcasts a column of length one, and raises \<open>ValueError\<close> for any other length.
\<close>

definition set_column :: "ndarray \<Rightarrow> nat \<Rightarrow> real list \<Rightarrow> error + ndarray" where
  "set_column S j col =
     (if length col = nrows S
      then Inr (Array2 (ncols S) (map2 (\<lambda>r v. r[j := v]) (rowlist S) col))
      else if length col = 1
      then Inr (Array2 (ncols S) (map (\<lambda>r. r[j := hd col]) (rowlist S)))
      else Inl ValueError)"

text \<open>
  \<open>np.empty_like(X)\<close>: an array of the shape of \<open>X\<close> whose cells are not initialised.
  The cells are taken from \<open>X\<close> here; the loop that follows overwrites every column.
\<close>

definition empty_like :: "ndarray \<Rightarrow> ndarray" where
  "empty_like X = Array2 (ncols X) (rowlist X)"

text \<open>\<open>np.vstack((A, B))\<close> raises \<open>ValueError\<close> when the column counts differ.\<close>

definition vstack :: "ndarray \<Rightarrow> ndarray \<Rightarrow> error + ndarray" where
  "vstack A B =
     (if ncols A = ncols B then Inr (Array2 (ncols A) (rowlist A @ rowlist B))
      else Inl ValueError)"

text \<open>\<open>xs[idx]\<close> with an index array: \<open>IndexError\<close> when an index is out of bounds.\<close>

definition take_idx :: "'a list \<Rightarrow> nat list \<Rightarrow> error + 'a list" where
  "take_idx xs idx =
     (if list_all (\<lambda>i. i < length xs) idx then Inr (map (\<lambda>i. xs ! i) idx)
      else Inl IndexError)"

definition take_rows :: "ndarray \<Rightarrow> nat list \<Rightarrow> error + ndarray" where
  "take_rows X idx =
     (case take_idx (rowlist X) idx of
        Inl e \<Rightarrow> Inl e
      | Inr rs \<Rightarrow> Inr (Array2 (ncols X) rs))"

text \<open>\<open>np.min\<close> and \<open>np.max\<close> raise \<open>ValueError\<close> on a zero-size array.\<close>

definition amin :: "real list \<Rightarrow> error + real" where
  "amin xs = (case xs of [] \<Rightarrow> Inl ValueError | x # ys \<Rightarrow> Inr (fold min ys x))"

definition amax :: "real list \<Rightarrow> error + real" where
  "amax xs = (case xs of [] \<Rightarrow> Inl ValueError | x # ys \<Rightarrow> Inr (fold max ys x))"

section \<open>The random generator\<close>

text \<open>
  \<open>numpy.random.RandomState\<close> is a mutable object; its state is threaded explicitly.
  The generator itself (seeding and the raw output function) is a parameter of the
  development: \<open>init_by_seed\<close> builds the state from a seed, which numpy requires to be
  an unsigned 32-bit integer, and \<open>next_raw\<close> yields one raw output and the next state.
\<close>

record 'g mtrand =
  init_by_seed :: "32 word \<Rightarrow> 'g"
  next_raw :: "'g \<Rightarrow> nat \<times> 'g"

text \<open>
  The three sampling methods the program calls, after numpy's documentation:
  \<open>random_sample\<close> yields a multiple of \<open>2^-53\<close> in \<open>[0, 1)\<close>, \<open>uniform\<close> computes
  \<open>low + (high - low) * random_sample()\<close>, \<open>choice\<close> with replacement draws indices
  below the population size and rejects an empty population, \<open>permutation\<close> shuffles a
  copy by swapping position \<open>i\<close>, from the last down to 1, with a drawn position
  \<open>j \<le> i\<close>. Bounded integers are reduced from the raw output by \<open>mod\<close>.
\<close>

definition random_sample :: "'g mtrand \<Rightarrow> 'g \<Rightarrow> real \<times> 'g" where
  "random_sample lib g =
     (case next_raw lib g of (k, g') \<Rightarrow> (real (k mod 2 ^ 53) / 2 ^ 53, g'))"

definition rk_interval :: "'g mtrand \<Rightarrow> nat \<Rightarrow> 'g \<Rightarrow> nat \<times> 'g" where
  "rk_interval lib hi g = (case next_raw lib g of (k, g') \<Rightarrow> (k mod (hi + 1), g'))"

fun uniform :: "'g mtrand \<Rightarrow> real \<Rightarrow> real \<Rightarrow> nat \<Rightarrow> 'g \<Rightarrow> real list \<times> 'g" where
  "uniform lib low high 0 g = ([], g)"
| "uniform lib low high (Suc n) g =
     (case random_sample lib g of (u, g1) \<Rightarrow>
        (case uniform lib low high n g1 of (vs, g2) \<Rightarrow>
           ((low + (high - low) * u) # vs, g2)))"

fun randint_below :: "'g mtrand \<Rightarrow> nat \<Rightarrow> nat \<Rightarrow> 'g \<Rightarrow> nat list \<times> 'g" where
  "randint_below lib pop 0 g = ([], g)"
| "randint_below lib pop (Suc n) g =
     (case rk_interval lib (pop - 1) g of (i, g1) \<Rightarrow>
        (case randint_below lib pop n g1 of (js, g2) \<Rightarrow> (i # js, g2)))"

definition choice :: "'g mtrand \<Rightarrow> 'a list \<Rightarrow> nat \<Rightarrow> 'g \<Rightarrow> error + ('a list \<times> 'g)" where
  "choice lib a sz g =
     (if a = [] then Inl ValueError
      else (case randint_below lib (length a) sz g of
              (idx, g') \<Rightarrow> Inr (map (\<lambda>i. a ! i) idx, g')))"

fun shuffle :: "'g mtrand \<Rightarrow> nat \<Rightarrow> 'a list \<Rightarrow> 'g \<Rightarrow> 'a list \<times> 'g" where
  "shuffle lib 0 xs g = (xs, g)"
| "shuffle lib (Suc i) xs g =
     (case rk_interval lib (Suc i) g of (j, g1) \<Rightarrow>
        shuffle lib i (xs[Suc i := xs ! j, j := xs ! Suc i]) g1)"

definition permutation :: "'g mtrand \<Rightarrow> 'a list \<Rightarrow> 'g \<Rightarrow> 'a list \<times> 'g" where
  "permutation lib xs g = shuffle lib (length xs - 1) xs g"

text \<open>
  \<open>sklearn.utils.check_random_state\<close>: \<open>None\<close> is the process-wide generator of
  \<open>numpy.random\<close>, an integer seeds a fresh generator, a generator instance is returned
  as it is. The process-wide generator is the ambient state \<open>glob\<close>.
\<close>

datatype 'g random_state_arg = RS_None | RS_Int "32 word" | RS_Instance 'g

definition check_random_state :: "'g mtrand \<Rightarrow> 'g \<Rightarrow> 'g random_state_arg \<Rightarrow> 'g" where
  "check_random_state lib glob rs =
     (case rs of RS_None \<Rightarrow> glob | RS_Int s \<Rightarrow> init_by_seed lib s | RS_Instance g \<Rightarrow> g)"

section \<open>Column Sampler\<close>

text \<open>
  Both samplers return the sampled column with the state the generator is left in.
  \<open>n_samples\<close> is \<open>None\<close> by default, which means the length of the column.
\<close>

definition bootstrap_sample_column ::
  "'g mtrand \<Rightarrow> 'g \<Rightarrow> real list \<Rightarrow> nat option \<Rightarrow> 'g random_state_arg
     \<Rightarrow> error + (real list \<times> 'g)" where
  "bootstrap_sample_column lib glob X n_samples random_state =
     (let g = check_random_state lib glob random_state;
          n = (case n_samples of None \<Rightarrow> length X | Some n \<Rightarrow> n)
      in choice lib X n g)"

definition uniform_sample_column ::
  "'g mtrand \<Rightarrow> 'g \<Rightarrow> real list \<Rightarrow> nat option \<Rightarrow> 'g random_state_arg
     \<Rightarrow> error + (real list \<times> 'g)" where
  "uniform_sample_column lib glob X n_samples random_state =
     (let g = check_random_state lib glob random_state;
          n = (case n_samples of None \<Rightarrow> length X | Some n \<Rightarrow> n)
      in case amin X of
           Inl e \<Rightarrow> Inl e
         | Inr min_X \<Rightarrow>
             (case amax X of
                Inl e \<Rightarrow> Inl e
              | Inr max_X \<Rightarrow> Inr (uniform lib min_X max_X n g)))"

section \<open>Synthetic Feature Generator\<close>

text \<open>
  The loop over \<open>range(n_features)\<close>: the method name is tested inside the loop body,
  once per column, and the generator handed to the column sampler is the instance the
  caller resolved, so its state advances from column to column.
\<close>

fun sample_columns ::
  "'g mtrand \<Rightarrow> 'g \<Rightarrow> ndarray \<Rightarrow> string \<Rightarrow> nat list \<Rightarrow> ndarray \<Rightarrow> 'g
     \<Rightarrow> error + (ndarray \<times> 'g)" where
  "sample_columns lib glob X method [] synth_X g = Inr (synth_X, g)"
| "sample_columns lib glob X method (c # cs) synth_X g =
     (if method = ''bootstrap'' then
        (case bootstrap_sample_column lib glob (column X c) None (RS_Instance g) of
           Inl e \<Rightarrow> Inl e
         | Inr (col, g1) \<Rightarrow>
             (case set_column synth_X c col of
                Inl e \<Rightarrow> Inl e
              | Inr S \<Rightarrow> sample_columns lib glob X method cs S g1))
      else if method = ''uniform'' then
        (case uniform_sample_column lib glob (column X c) None (RS_Instance g) of
           Inl e \<Rightarrow> Inl e
         | Inr (col, g1) \<Rightarrow>
             (case set_column synth_X c col of
                Inl e \<Rightarrow> Inl e
              | Inr S \<Rightarrow> sample_columns lib glob X method cs S g1))
      else Inl ValueError)"

definition generate_synthetic_features ::
  "'g mtrand \<Rightarrow> 'g \<Rightarrow> ndarray \<Rightarrow> string \<Rightarrow> 'g random_state_arg
     \<Rightarrow> error + (ndarray \<times> 'g)" where
  "generate_synthetic_features lib glob X method random_state =
     (let g = check_random_state lib glob random_state;
          n_features = ncols X;
          synth_X = empty_like X
      in sample_columns lib glob X method [0..<n_features] synth_X g)"

section \<open>Discriminative Dataset Builder\<close>

text \<open>
  \<open>stack_and_label\<close> is the stacking and labelling step (\<open>np.vstack\<close>, then ones followed
  by zeros); \<open>shuffle_rows\<close> draws the permutation of the row indices and indexes both
  the matrix and the labels with it.
\<close>

definition stack_and_label :: "ndarray \<Rightarrow> ndarray \<Rightarrow> nat \<Rightarrow> error + (ndarray \<times> real list)" where
  "stack_and_label X synth_X n_samples =
     (case vstack X synth_X of
        Inl e \<Rightarrow> Inl e
      | Inr X' \<Rightarrow> Inr (X', replicate n_samples 1 @ replicate n_samples 0))"

definition shuffle_rows ::
  "'g mtrand \<Rightarrow> ndarray \<Rightarrow> real list \<Rightarrow> 'g \<Rightarrow> error + ((ndarray \<times> real list) \<times> 'g)" where
  "shuffle_rows lib X' y' g =
     (case permutation lib [0..<nrows X'] g of
        (permutation_indices, g') \<Rightarrow>
          (case take_rows X' permutation_indices of
             Inl e \<Rightarrow> Inl e
           | Inr XP \<Rightarrow>
               (case take_idx y' permutation_indices of
                  Inl e \<Rightarrow> Inl e
                | Inr yP \<Rightarrow> Inr ((XP, yP), g'))))"

definition generate_discriminative_dataset ::
  "'g mtrand \<Rightarrow> 'g \<Rightarrow> ndarray \<Rightarrow> string \<Rightarrow> 'g random_state_arg
     \<Rightarrow> error + ((ndarray \<times> real list) \<times> 'g)" where
  "generate_discriminative_dataset lib glob X method random_state =
     (let g = check_random_state lib glob random_state;
          n_samples = nrows X
      in case generate_synthetic_features lib glob X method (RS_Instance g) of
           Inl e \<Rightarrow> Inl e
         | Inr (synth_X, g1) \<Rightarrow>
             (case stack_and_label X synth_X n_samples of
                Inl e \<Rightarrow> Inl e
              | Inr (X', y') \<Rightarrow> shuffle_rows lib X' y' g1))"

text \<open>
  The process-wide generator after a call: it has advanced only when the call was given
  \<open>None\<close> and so drew from it.
\<close>

definition global_after :: "'g random_state_arg \<Rightarrow> 'g \<Rightarrow> 'g \<Rightarrow> 'g" where
  "global_after random_state glob g' = (case random_state of RS_None \<Rightarrow> g' | _ \<Rightarrow> glob)"

section \<open>Forest-Proximity Embedder\<close>

text \<open>
  The estimator object: the constructor's parameters and \<open>estimators\<close>, the list of
  fitted trees that the ensemble base class keeps under the attribute of that name with a
  trailing underscore (empty until \<open>fit\<close> has run). The field \<open>method'\<close> is the
  attribute holding the name of the sampling method. The names \<open>X'\<close> and \<open>y'\<close> stand
  for the source's variables with a trailing underscore.
\<close>

record ('g, 't) embedder =
  n_estimators :: int
  criterion :: string
  max_depth :: "int option"
  min_samples_split :: int
  min_samples_leaf :: int
  min_weight_fraction_leaf :: real
  max_features :: string
  max_leaf_nodes :: "int option"
  bootstrap :: bool
  method' :: string
  n_jobs :: int
  random_state :: "'g random_state_arg"
  verbose :: int
  warm_start :: bool
  oob_score :: bool
  estimators :: "'t list"

text \<open>\<open>RandomForest2Embedding()\<close> with the default arguments of \<open>__init__\<close>.\<close>

definition RandomForest2Embedding :: "('g, 't) embedder" where
  "RandomForest2Embedding =
     \<lparr> n_estimators = 10, criterion = ''gini'', max_depth = Some 5,
       min_samples_split = 2, min_samples_leaf = 1, min_weight_fraction_leaf = 0,
       max_features = ''auto'', max_leaf_nodes = None, bootstrap = True,
       method' = ''bootstrap'', n_jobs = - 1, random_state = RS_None, verbose = 0,
       warm_start = False, oob_score = False, estimators = [] \<rparr>"

text \<open>
  The capabilities of scikit-learn that the embedder calls are parameters:
  \<open>check_array\<close> validates the input, \<open>forest_fit\<close> trains the trees of
  \<open>BaseForest.fit\<close> (it may draw from the process-wide generator), \<open>forest_paths\<close> is
  the indicator matrix of the fitted trees, \<open>tsne\<close> is \<open>manifold.TSNE\<close> with the Hamming
  metric and its fixed seed.
\<close>

record ('g, 't) sklearn =
  check_array :: "ndarray \<Rightarrow> error + ndarray"
  forest_fit :: "('g, 't) embedder \<Rightarrow> ndarray \<Rightarrow> real list \<Rightarrow> real list option \<Rightarrow> 'g
                   \<Rightarrow> error + ('t list \<times> 'g)"
  forest_paths :: "'t list \<Rightarrow> ndarray \<Rightarrow> error + bool list list"
  tsne :: "nat \<Rightarrow> bool list list \<Rightarrow> error + real list list"

text \<open>
  \<open>BaseForest.decision_path\<close>: scikit-learn raises \<open>NotFittedError\<close> when the estimator
  holds no fitted tree, before it looks at \<open>X\<close>.
\<close>

definition decision_path ::
  "('g, 't) sklearn \<Rightarrow> ('g, 't) embedder \<Rightarrow> ndarray \<Rightarrow> error + bool list list" where
  "decision_path sk self X =
     (if estimators self = [] then Inl NotFittedError
      else forest_paths sk (estimators self) X)"

definition calcul_embedding ::
  "('g, 't) sklearn \<Rightarrow> bool list list \<Rightarrow> nat \<Rightarrow> error + real list list" where
  "calcul_embedding sk nodes n_components = tsne sk n_components nodes"

definition transform ::
  "('g, 't) sklearn \<Rightarrow> ('g, 't) embedder \<Rightarrow> ndarray \<Rightarrow> nat \<Rightarrow> error + real list list" where
  "transform sk self X n_components =
     (case decision_path sk self X of
        Inl e \<Rightarrow> Inl e
      | Inr path \<Rightarrow> calcul_embedding sk path n_components)"

text \<open>
  The discriminative dataset \<open>fit_transform\<close> trains on: the builder is called with the
  method of the estimator and without a \<open>random_state\<close> argument, so with its default
  seed 1234.
\<close>

definition training_dataset ::
  "'g mtrand \<Rightarrow> 'g \<Rightarrow> ('g, 't) embedder \<Rightarrow> ndarray \<Rightarrow> error + ((ndarray \<times> real list) \<times> 'g)" where
  "training_dataset lib glob self X =
     generate_discriminative_dataset lib glob X (method' self) (RS_Int 1234)"

definition fit_transform ::
  "'g mtrand \<Rightarrow> ('g, 't) sklearn \<Rightarrow> 'g \<Rightarrow> ('g, 't) embedder \<Rightarrow> ndarray \<Rightarrow> real list option
     \<Rightarrow> nat \<Rightarrow> error + (real list list \<times> ('g, 't) embedder \<times> 'g)" where
  "fit_transform lib sk glob self X sample_weight n_components =
     (case check_array sk X of
        Inl e \<Rightarrow> Inl e
      | Inr X \<Rightarrow>
          (case training_dataset lib glob self X of
             Inl e \<Rightarrow> Inl e
           | Inr ((X', y'), _) \<Rightarrow>
               (case forest_fit sk self X' y' sample_weight glob of
                  Inl e \<Rightarrow> Inl e
                | Inr (trees, glob') \<Rightarrow>
                    (let self' = self\<lparr>estimators := trees\<rparr>
                     in case transform sk self' X n_components of
                          Inl e \<Rightarrow> Inl e
                        | Inr emb \<Rightarrow> Inr (emb, self', glob')))))"

definition fit ::
  "'g mtrand \<Rightarrow> ('g, 't) sklearn \<Rightarrow> 'g \<Rightarrow> ('g, 't) embedder \<Rightarrow> ndarray \<Rightarrow> real list option
     \<Rightarrow> error + (('g, 't) embedder \<times> 'g)" where
  "fit lib sk glob self X sample_weight =
     (case fit_transform lib sk glob self X sample_weight 2 of
        Inl e \<Rightarrow> Inl e
      | Inr (_, self', glob') \<Rightarrow> Inr (self', glob'))"

text \<open>
  A small linear congruential generator, seeded with the seed itself; the model runs on
  it wherever a concrete generator is needed.
\<close>

definition lcg :: "nat mtrand" where
  "lcg = \<lparr> init_by_seed = unat,
           next_raw = (\<lambda>s. let s' = (1103515245 * s + 12345) mod 2 ^ 31 in (s', s')) \<rparr>"

text \<open>
  A stand-in for the scikit-learn capabilities that records what the forest is trained
  on: \<open>check_array\<close> accepts every array, fitting returns one tree, which is the pair of
  matrix and labels it was given, every sample visits one node, and the reduction sends
  every sample to the origin.
\<close>

definition recording_sklearn :: "(nat, ndarray \<times> real list) sklearn" where
  "recording_sklearn =
     \<lparr> check_array = Inr,
       forest_fit = (\<lambda>self X' y' sample_weight g. Inr ([(X', y')], g)),
       forest_paths = (\<lambda>trees X. Inr (map (\<lambda>r. [True]) (rowlist X))),
       tsne = (\<lambda>n_components nodes. Inr (map (\<lambda>r. replicate n_components 0) nodes)) \<rparr>"

section \<open>Properties of the generator's sampling methods\<close>

lemma random_sample_range:
  "random_sample lib g = (u, g') \<Longrightarrow> 0 \<le> u \<and> u < 1"
  by (auto simp: random_sample_def split: prod.splits)

lemma uniform_range:
  "uniform lib low high n g = (vs, g') \<Longrightarrow> low \<le> high \<Longrightarrow>
     length vs = n \<and> (\<forall>v\<in>set vs. low \<le> v \<and> v \<le> high)"
proof (induction n arbitrary: g vs g')
  case 0
  then show ?case by simp
next
  case (Suc n)
  obtain u g1 where u: "random_sample lib g = (u, g1)" by (cases "random_sample lib g")
  obtain ws g2 where ws: "uniform lib low high n g1 = (ws, g2)"
    by (cases "uniform lib low high n g1")
  from Suc.prems u ws have vs: "vs = (low + (high - low) * u) # ws" by simp
  from random_sample_range [OF u] have "0 \<le> u" "u < 1" by simp_all
  with \<open>low \<le> high\<close> have "0 \<le> (high - low) * u" "(high - low) * u \<le> high - low"
    by (simp_all add: mult_left_le)
  then have "low \<le> low + (high - low) * u" "low + (high - low) * u \<le> high" by simp_all
  with Suc.IH [OF ws \<open>low \<le> high\<close>] vs show ?case by simp
qed

lemma fold_min_Min: "fold min ys (x::real) = Min (set (x # ys))"
  by (simp only: Min.set_eq_fold)

lemma fold_max_Max: "fold max ys (x::real) = Max (set (x # ys))"
  by (simp only: Max.set_eq_fold)

lemma amin_Min: "amin xs = Inr m \<Longrightarrow> xs \<noteq> [] \<and> m = Min (set xs)"
  by (cases xs) (simp_all add: amin_def fold_min_Min del: set_simps)

lemma amax_Max: "amax xs = Inr m \<Longrightarrow> xs \<noteq> [] \<and> m = Max (set xs)"
  by (cases xs) (simp_all add: amax_def fold_max_Max del: set_simps)

lemma amin_nonempty: "xs \<noteq> [] \<Longrightarrow> amin xs = Inr (Min (set xs))"
  by (cases xs) (simp_all add: amin_def fold_min_Min del: set_simps)

lemma amax_nonempty: "xs \<noteq> [] \<Longrightarrow> amax xs = Inr (Max (set xs))"
  by (cases xs) (simp_all add: amax_def fold_max_Max del: set_simps)

lemma rk_interval_bound: "rk_interval lib hi g = (j, g') \<Longrightarrow> j \<le> hi"
  by (auto simp: rk_interval_def split: prod.splits intro: less_Suc_eq_le [THEN iffD1])

lemma randint_below_range:
  "randint_below lib pop n g = (idx, g') \<Longrightarrow> 0 < pop \<Longrightarrow>
     length idx = n \<and> (\<forall>i\<in>set idx. i < pop)"
proof (induction n arbitrary: g idx g')
  case 0
  then show ?case by simp
next
  case (Suc n)
  obtain i g1 where i: "rk_interval lib (pop - 1) g = (i, g1)"
    by (cases "rk_interval lib (pop - 1) g")
  obtain js g2 where js: "randint_below lib pop n g1 = (js, g2)"
    by (cases "randint_below lib pop n g1")
  from Suc.prems i js have "idx = i # js" by simp
  moreover from rk_interval_bound [OF i] \<open>0 < pop\<close> have "i < pop" by simp
  ultimately show ?case using Suc.IH [OF js \<open>0 < pop\<close>] by simp
qed

lemma choice_sound:
  "choice lib a n g = Inr (col, g') \<Longrightarrow> a \<noteq> [] \<and> length col = n \<and> set col \<subseteq> set a"
proof -
  assume c: "choice lib a n g = Inr (col, g')"
  then have ne: "a \<noteq> []" by (auto simp: choice_def split: if_splits)
  obtain idx g1 where idx: "randint_below lib (length a) n g = (idx, g1)"
    by (cases "randint_below lib (length a) n g")
  from c ne idx have col: "col = map (\<lambda>i. a ! i) idx" by (simp add: choice_def)
  from ne have "0 < length a" by simp
  from randint_below_range [OF idx this] col ne show ?thesis by auto
qed

lemma choice_returns:
  "a \<noteq> [] \<Longrightarrow> \<exists>col g'. choice lib a n g = Inr (col, g')"
  by (simp add: choice_def split: prod.splits)

lemma shuffle_mset:
  "i < length xs \<Longrightarrow> shuffle lib i xs g = (ys, g') \<Longrightarrow> mset ys = mset xs"
proof (induction i arbitrary: xs g)
  case 0
  then show ?case by simp
next
  case (Suc i)
  obtain j g1 where j: "rk_interval lib (Suc i) g = (j, g1)"
    by (cases "rk_interval lib (Suc i) g")
  let ?zs = "xs[Suc i := xs ! j, j := xs ! Suc i]"
  from rk_interval_bound [OF j] Suc.prems(1) have jl: "j < length xs" by simp
  from Suc.prems(2) j have "shuffle lib i ?zs g1 = (ys, g')" by simp
  moreover from Suc.prems(1) have "i < length ?zs" by simp
  ultimately have "mset ys = mset ?zs" by (rule Suc.IH [rotated])
  also from jl Suc.prems(1) have "mset ?zs = mset xs" by (simp add: mset_swap)
  finally show ?case .
qed

lemma permutation_mset: "permutation lib xs g = (ys, g') \<Longrightarrow> mset ys = mset xs"
proof (cases xs)
  case Nil
  assume "permutation lib xs g = (ys, g')"
  with Nil show ?thesis by (simp add: permutation_def)
next
  case (Cons x zs)
  assume "permutation lib xs g = (ys, g')"
  then have "shuffle lib (length xs - 1) xs g = (ys, g')" by (simp add: permutation_def)
  moreover from Cons have "length xs - 1 < length xs" by simp
  ultimately show ?thesis by (rule shuffle_mset [rotated])
qed

lemma permutation_indices:
  assumes "permutation lib [0..<n] g = (p, g')"
  shows "length p = n" and "distinct p" and "set p = {..<n}"
proof -
  from permutation_mset [OF assms] have m: "mset p = mset [0..<n]" .
  from m have "size (mset p) = size (mset [0..<n])" by simp
  then show "length p = n" by simp
  from m have "distinct p = distinct [0..<n]" by (rule mset_eq_imp_distinct_iff)
  then show "distinct p" by simp
  from m have "set p = set [0..<n]" by (rule mset_eq_setD)
  then show "set p = {..<n}" by (simp add: atLeast0LessThan)
qed

lemma take_idx_permuted:
  assumes "mset p = mset [0..<length xs]"
  shows "\<exists>ys. take_idx xs p = Inr ys \<and> ys = map (\<lambda>i. xs ! i) p \<and> mset ys = mset xs"
proof -
  from assms have "set p = set [0..<length xs]" by (rule mset_eq_setD)
  then have "list_all (\<lambda>i. i < length xs) p" by (simp add: list_all_iff)
  then have t: "take_idx xs p = Inr (map (\<lambda>i. xs ! i) p)" by (simp add: take_idx_def)
  have "mset (map (\<lambda>i. xs ! i) p) = image_mset (\<lambda>i. xs ! i) (mset p)" by simp
  also have "\<dots> = image_mset (\<lambda>i. xs ! i) (mset [0..<length xs])" by (simp only: assms)
  also have "\<dots> = mset (map (\<lambda>i. xs ! i) [0..<length xs])" by simp
  also have "\<dots> = mset xs" by (simp only: map_nth)
  finally show ?thesis using t by simp
qed

section \<open>Properties of the column samplers and the column loop\<close>

lemma bootstrap_sound:
  "bootstrap_sample_column lib glob X n_samples rs = Inr (col, g') \<Longrightarrow>
     X \<noteq> [] \<and> length col = (case n_samples of None \<Rightarrow> length X | Some n \<Rightarrow> n) \<and> set col \<subseteq> set X"
  unfolding bootstrap_sample_column_def Let_def by (rule choice_sound)

lemma bootstrap_returns:
  "X \<noteq> [] \<Longrightarrow> \<exists>col g'. bootstrap_sample_column lib glob X n_samples rs = Inr (col, g')"
  unfolding bootstrap_sample_column_def Let_def by (rule choice_returns)

lemma Min_le_Max_list: "xs \<noteq> [] \<Longrightarrow> Min (set xs) \<le> (Max (set xs) :: real)"
  by (metis Min_le Max_ge hd_in_set order_trans List.finite_set)

lemma uniform_sound:
  assumes "uniform_sample_column lib glob X n_samples rs = Inr (col, g')"
  shows "X \<noteq> [] \<and> length col = (case n_samples of None \<Rightarrow> length X | Some n \<Rightarrow> n)
           \<and> (\<forall>v\<in>set col. Min (set X) \<le> v \<and> v \<le> Max (set X))"
proof -
  from assms have ne: "X \<noteq> []"
    by (cases X) (simp_all add: uniform_sample_column_def amin_def)
  let ?n = "case n_samples of None \<Rightarrow> length X | Some n \<Rightarrow> n"
  from assms ne have
    "uniform lib (Min (set X)) (Max (set X)) ?n (check_random_state lib glob rs) = (col, g')"
    by (simp add: uniform_sample_column_def amin_nonempty amax_nonempty)
  from uniform_range [OF this Min_le_Max_list [OF ne]] ne show ?thesis by simp
qed

lemma uniform_returns:
  "X \<noteq> [] \<Longrightarrow> \<exists>col g'. uniform_sample_column lib glob X n_samples rs = Inr (col, g')"
  by (simp add: uniform_sample_column_def amin_nonempty amax_nonempty)

lemma set_column_shape:
  assumes "set_column S j col = Inr S'"
  shows "nrows S' = nrows S" and "ncols S' = ncols S" and "rectangular S \<Longrightarrow> rectangular S'"
  using assms
  by (auto simp: set_column_def nrows_def rectangular_def list_all_iff in_set_zip
           split: if_splits)

lemma set_column_returns:
  "length col = nrows S \<Longrightarrow> \<exists>S'. set_column S j col = Inr S'"
  by (simp add: set_column_def)

lemma length_column: "length (column X c) = nrows X"
  by (simp add: column_def nrows_def)

lemma sample_columns_shape:
  "sample_columns lib glob X meth cs S g = Inr (S', g') \<Longrightarrow>
     nrows S' = nrows S \<and> ncols S' = ncols S \<and> (rectangular S \<longrightarrow> rectangular S')"
proof (induction cs arbitrary: S g)
  case Nil
  then show ?case by simp
next
  case (Cons c cs)
  from Cons.prems obtain col g1 T where
    T: "set_column S c col = Inr T" and
    rest: "sample_columns lib glob X meth cs T g1 = Inr (S', g')"
    by (auto split: if_splits sum.splits)
  from Cons.IH [OF rest] set_column_shape [OF T] show ?case by simp
qed

lemma sample_columns_returns:
  assumes m: "meth = ''bootstrap'' \<or> meth = ''uniform''"
    and n: "0 < nrows X"
  shows "nrows S = nrows X \<Longrightarrow> \<exists>S' g'. sample_columns lib glob X meth cs S g = Inr (S', g')"
proof (induction cs arbitrary: S g)
  case Nil
  then show ?case by simp
next
  case (Cons c cs)
  from n have ne: "column X c \<noteq> []" using length_column [of X c] by auto
  from m show ?case
  proof
    assume b: "meth = ''bootstrap''"
    from bootstrap_returns [OF ne, where lib=lib and glob=glob and n_samples=None and rs="RS_Instance g"] obtain col g1 where
      col: "bootstrap_sample_column lib glob (column X c) None (RS_Instance g) = Inr (col, g1)"
      by blast
    from bootstrap_sound [OF col] Cons.prems have "length col = nrows S"
      by (simp add: length_column)
    from set_column_returns [OF this] obtain T where T: "set_column S c col = Inr T" by blast
    from set_column_shape(1) [OF T] Cons.prems have "nrows T = nrows X" by simp
    from Cons.IH [OF this] obtain S' g' where
      "sample_columns lib glob X meth cs T g1 = Inr (S', g')" by blast
    with b col T show ?thesis by simp
  next
    assume u: "meth = ''uniform''"
    from uniform_returns [OF ne, where lib=lib and glob=glob and n_samples=None and rs="RS_Instance g"] obtain col g1 where
      col: "uniform_sample_column lib glob (column X c) None (RS_Instance g) = Inr (col, g1)"
      by blast
    from uniform_sound [OF col] Cons.prems have "length col = nrows S"
      by (simp add: length_column)
    from set_column_returns [OF this] obtain T where T: "set_column S c col = Inr T" by blast
    from set_column_shape(1) [OF T] Cons.prems have "nrows T = nrows X" by simp
    from Cons.IH [OF this] obtain S' g' where
      "sample_columns lib glob X meth cs T g1 = Inr (S', g')" by blast
    with u col T show ?thesis by simp
  qed
qed

lemma generate_synthetic_features_shape:
  assumes "generate_synthetic_features lib glob X meth rs = Inr (S, g')"
  shows "nrows S = nrows X \<and> ncols S = ncols X \<and> (rectangular X \<longrightarrow> rectangular S)"
proof -
  from assms have "sample_columns lib glob X meth [0..<ncols X] (empty_like X)
      (check_random_state lib glob rs) = Inr (S, g')"
    by (simp add: generate_synthetic_features_def)
  from sample_columns_shape [OF this] show ?thesis
    by (auto simp: empty_like_def nrows_def rectangular_def)
qed

section \<open>Properties of the builder's steps\<close>

lemma stack_and_label_value:
  assumes "generate_synthetic_features lib glob X meth rs = Inr (synth_X, g1)"
  shows "stack_and_label X synth_X (nrows X) =
           Inr (Array2 (ncols X) (rowlist X @ rowlist synth_X),
                replicate (nrows X) 1 @ replicate (nrows X) 0)"
  using generate_synthetic_features_shape [OF assms]
  by (simp add: stack_and_label_def vstack_def)

lemma shuffle_rows_permuted:
  assumes sh: "shuffle_rows lib X' y' g = Inr ((XP, yP), g')"
    and len: "length y' = nrows X'"
  shows "\<exists>p. mset p = mset [0..<nrows X'] \<and> permutation lib [0..<nrows X'] g = (p, g')
           \<and> XP = Array2 (ncols X') (map (\<lambda>i. rowlist X' ! i) p)
           \<and> yP = map (\<lambda>i. y' ! i) p"
proof -
  obtain p g1 where p: "permutation lib [0..<nrows X'] g = (p, g1)"
    by (cases "permutation lib [0..<nrows X'] g")
  from permutation_mset [OF p] have m: "mset p = mset [0..<nrows X']" .
  then have mx: "mset p = mset [0..<length (rowlist X')]" by (simp add: nrows_def)
  from m len have my: "mset p = mset [0..<length y']" by simp
  from take_idx_permuted [OF mx] have tx: "take_idx (rowlist X') p = Inr (map (\<lambda>i. rowlist X' ! i) p)"
    by simp
  from take_idx_permuted [OF my] have ty: "take_idx y' p = Inr (map (\<lambda>i. y' ! i) p)" by simp
  from sh p tx ty have "XP = Array2 (ncols X') (map (\<lambda>i. rowlist X' ! i) p)"
    "yP = map (\<lambda>i. y' ! i) p" "g1 = g'"
    by (simp_all add: shuffle_rows_def take_rows_def)
  with m p show ?thesis by blast
qed

lemma shuffle_rows_returns:
  assumes len: "length y' = nrows X'"
  shows "\<exists>out g'. shuffle_rows lib X' y' g = Inr (out, g')"
proof -
  obtain p g1 where p: "permutation lib [0..<nrows X'] g = (p, g1)"
    by (cases "permutation lib [0..<nrows X'] g")
  from permutation_mset [OF p] have m: "mset p = mset [0..<nrows X']" .
  then have mx: "mset p = mset [0..<length (rowlist X')]" by (simp add: nrows_def)
  from m len have my: "mset p = mset [0..<length y']" by simp
  from take_idx_permuted [OF mx] have tx: "take_idx (rowlist X') p = Inr (map (\<lambda>i. rowlist X' ! i) p)"
    by simp
  from take_idx_permuted [OF my] have ty: "take_idx y' p = Inr (map (\<lambda>i. y' ! i) p)" by simp
  from p tx ty show ?thesis by (simp add: shuffle_rows_def take_rows_def)
qed

lemma builder_steps:
  assumes "generate_discriminative_dataset lib glob X meth rs = Inr (out, g2)"
  shows "\<exists>synth_X g1.
           generate_synthetic_features lib glob X meth
             (RS_Instance (check_random_state lib glob rs)) = Inr (synth_X, g1)
         \<and> nrows synth_X = nrows X \<and> ncols synth_X = ncols X
         \<and> shuffle_rows lib (Array2 (ncols X) (rowlist X @ rowlist synth_X))
             (replicate (nrows X) 1 @ replicate (nrows X) 0) g1 = Inr (out, g2)"
proof -
  let ?g = "check_random_state lib glob rs"
  from assms obtain synth_X g1 where
    s: "generate_synthetic_features lib glob X meth (RS_Instance ?g) = Inr (synth_X, g1)"
    by (auto simp: generate_discriminative_dataset_def Let_def split: sum.splits)
  from assms s stack_and_label_value [OF s] have
    "shuffle_rows lib (Array2 (ncols X) (rowlist X @ rowlist synth_X))
       (replicate (nrows X) 1 @ replicate (nrows X) 0) g1 = Inr (out, g2)"
    by (simp add: generate_discriminative_dataset_def Let_def)
  with s generate_synthetic_features_shape [OF s] show ?thesis by blast
qed

lemma count_list_replicate:
  "count_list (replicate n x) y = (if x = y then n else 0)"
  by (induction n) auto

lemma labels_balanced:
  "count_list (replicate n (1::real) @ replicate n 0) 1 = n"
  "count_list (replicate n (1::real) @ replicate n 0) 0 = n"
  by (simp_all add: count_list_replicate)

lemma mset_count_list: "mset xs = mset ys \<Longrightarrow> count_list xs v = count_list ys v"
  by (metis count_mset)

lemma sample_columns_ambient:
  "sample_columns lib glob1 X meth cs S g = sample_columns lib glob2 X meth cs S g"
proof (induction cs arbitrary: S g)
  case Nil
  show ?case by simp
next
  case (Cons c cs)
  have b: "bootstrap_sample_column lib glob1 (column X c) None (RS_Instance g)
         = bootstrap_sample_column lib glob2 (column X c) None (RS_Instance g)"
    by (simp add: bootstrap_sample_column_def check_random_state_def)
  have u: "uniform_sample_column lib glob1 (column X c) None (RS_Instance g)
         = uniform_sample_column lib glob2 (column X c) None (RS_Instance g)"
    by (simp add: uniform_sample_column_def check_random_state_def)
  show ?case by (simp only: sample_columns.simps b u Cons.IH)
qed

lemma generate_synthetic_features_ambient:
  "generate_synthetic_features lib glob1 X meth (RS_Instance g)
     = generate_synthetic_features lib glob2 X meth (RS_Instance g)"
  by (simp add: generate_synthetic_features_def check_random_state_def
        sample_columns_ambient [of lib glob1 _ _ _ _ _ glob2])

lemma builder_ambient:
  "generate_discriminative_dataset lib glob1 X meth (RS_Int seed)
     = generate_discriminative_dataset lib glob2 X meth (RS_Int seed)"
  by (simp add: generate_discriminative_dataset_def check_random_state_def
        generate_synthetic_features_ambient [of lib glob1 _ _ _ glob2])

lemma generate_synthetic_features_returns:
  assumes m: "meth = ''bootstrap'' \<or> meth = ''uniform''"
    and n: "0 < nrows X \<or> ncols X = 0"
  shows "\<exists>S g'. generate_synthetic_features lib glob X meth rs = Inr (S, g')"
proof (cases "ncols X = 0")
  case True
  then show ?thesis by (simp add: generate_synthetic_features_def)
next
  case False
  with n have pos: "0 < nrows X" by simp
  have "nrows (empty_like X) = nrows X" by (simp add: empty_like_def nrows_def)
  from sample_columns_returns [OF m pos this] show ?thesis
    by (simp add: generate_synthetic_features_def)
qed

lemma builder_returns:
  assumes m: "meth = ''bootstrap'' \<or> meth = ''uniform''"
    and n: "0 < nrows X \<or> ncols X = 0"
  shows "\<exists>out g2. generate_discriminative_dataset lib glob X meth rs = Inr (out, g2)"
proof -
  let ?g = "check_random_state lib glob rs"
  from generate_synthetic_features_returns [OF m n, where lib=lib and glob=glob and rs="RS_Instance ?g"] obtain S g1 where
    s: "generate_synthetic_features lib glob X meth (RS_Instance ?g) = Inr (S, g1)" by blast
  from generate_synthetic_features_shape [OF s] have
    "length (replicate (nrows X) (1::real) @ replicate (nrows X) 0)
       = nrows (Array2 (ncols X) (rowlist X @ rowlist S))"
    by (simp add: nrows_def)
  from shuffle_rows_returns [OF this, where lib=lib and g=g1] obtain out g2 where
    "shuffle_rows lib (Array2 (ncols X) (rowlist X @ rowlist S))
       (replicate (nrows X) 1 @ replicate (nrows X) 0) g1 = Inr (out, g2)" by blast
  with s stack_and_label_value [OF s] show ?thesis
    by (simp add: generate_discriminative_dataset_def Let_def)
qed

lemma unknown_method_rejected:
  assumes "0 < ncols X" and "meth \<noteq> ''bootstrap''" and "meth \<noteq> ''uniform''"
  shows "generate_synthetic_features lib glob X meth rs = Inl ValueError"
  using assms by (simp add: generate_synthetic_features_def upt_conv_Cons)

lemma builder_permutation:
  assumes "generate_discriminative_dataset lib glob X meth rs = Inr ((XP, yP), g2)"
  shows "\<exists>synth_X g1 perm.
           generate_synthetic_features lib glob X meth
             (RS_Instance (check_random_state lib glob rs)) = Inr (synth_X, g1)
         \<and> nrows synth_X = nrows X \<and> ncols synth_X = ncols X
         \<and> permutation lib [0..<2 * nrows X] g1 = (perm, g2)
         \<and> mset perm = mset [0..<2 * nrows X]
         \<and> XP = Array2 (ncols X) (map (\<lambda>i. (rowlist X @ rowlist synth_X) ! i) perm)
         \<and> yP = map (\<lambda>i. (replicate (nrows X) 1 @ replicate (nrows X) 0) ! i) perm"
proof -
  from builder_steps [OF assms] obtain synth_X g1 where
    s: "generate_synthetic_features lib glob X meth
          (RS_Instance (check_random_state lib glob rs)) = Inr (synth_X, g1)"
    and sz: "nrows synth_X = nrows X" "ncols synth_X = ncols X"
    and sh: "shuffle_rows lib (Array2 (ncols X) (rowlist X @ rowlist synth_X))
          (replicate (nrows X) 1 @ replicate (nrows X) 0) g1 = Inr ((XP, yP), g2)"
    by blast
  let ?X' = "Array2 (ncols X) (rowlist X @ rowlist synth_X)"
  from sz have n2: "nrows ?X' = 2 * nrows X" by (simp add: nrows_def)
  then have "length (replicate (nrows X) (1::real) @ replicate (nrows X) 0) = nrows ?X'"
    by simp
  from shuffle_rows_permuted [OF sh this] n2 s sz show ?thesis by auto
qed

subsection \<open>Runs of the model on the generator \<open>lcg\<close>\<close>

lemma run_bootstrap_column:
  "bootstrap_sample_column lcg 0 [3, 5, 8] None (RS_Int 12345) = Inr ([5, 8, 5], 1449466924)"
  by code_simp

lemma run_seed: "check_random_state lcg glob (RS_Int 1234) = 1234"
  by (simp add: check_random_state_def lcg_def)

lemma run_synthetic:
  "generate_synthetic_features lcg 0 (Array2 2 [[1, 2], [3, 4], [5, 6]]) ''bootstrap''
     (RS_Instance 1234)
   = Inr (Array2 2 [[3, 6], [1, 2], [1, 2]], 2118068940)"
  by code_simp

lemma run_permutation:
  "permutation lcg [0..<6] 2118068940 = ([2, 4, 0, 5, 1, 3], 353184145)"
  by code_simp

lemma run_shuffle_rows:
  "shuffle_rows lcg (Array2 2 [[1, 2], [3, 4], [5, 6], [3, 6], [1, 2], [1, 2]])
     [1, 1, 1, 0, 0, 0] 2118068940
   = Inr ((Array2 2 [[5, 6], [1, 2], [1, 2], [1, 2], [3, 4], [3, 6]], [1, 0, 1, 0, 1, 0]),
          353184145)"
  by code_simp

lemma run_builder:
  "generate_discriminative_dataset lcg 0 (Array2 2 [[1, 2], [3, 4], [5, 6]]) ''bootstrap''
     (RS_Int 1234)
   = Inr ((Array2 2 [[5, 6], [1, 2], [1, 2], [1, 2], [3, 4], [3, 6]], [1, 0, 1, 0, 1, 0]),
          353184145)"
  unfolding generate_discriminative_dataset_def Let_def
  by (simp add: run_seed run_synthetic stack_and_label_def vstack_def nrows_def run_shuffle_rows)

section \<open>The claims\<close>

text \<open>
  C5. Under the bootstrap strategy every value of the column the sampler returns occurs
  in the input column, for every input column and every requested sample count; the
  returned column has the requested length.
\<close>

theorem bootstrap_values_observed:
  assumes "bootstrap_sample_column lib glob X n_samples rs = Inr (col, g')"
  shows "length col = (case n_samples of None \<Rightarrow> length X | Some n \<Rightarrow> n)
           \<and> set col \<subseteq> set X"
  using bootstrap_sound [OF assms] by simp

theorem bootstrap_values_observed_witness:
  "bootstrap_sample_column lcg 0 [3, 5, 8] None (RS_Int 12345) = Inr ([5, 8, 5], 1449466924)
   \<and> length [5, 8, 5 :: real] = 3 \<and> set [5, 8, 5 :: real] \<subseteq> set [3, 5, 8]"
  using bootstrap_values_observed [OF run_bootstrap_column] run_bootstrap_column by simp

text \<open>
  C6. Under the uniform strategy the sampler returns, for every non-empty input column,
  a column of the requested length whose values all lie between the minimum and the
  maximum of the input column, both included.
\<close>

theorem uniform_values_in_range:
  assumes "X \<noteq> []"
  shows "\<exists>col g'. uniform_sample_column lib glob X n_samples rs = Inr (col, g')
           \<and> length col = (case n_samples of None \<Rightarrow> length X | Some n \<Rightarrow> n)
           \<and> (\<forall>v\<in>set col. Min (set X) \<le> v \<and> v \<le> Max (set X))"
proof -
  from uniform_returns [OF assms, where lib=lib and glob=glob and n_samples=n_samples and rs=rs]
  obtain col g' where c: "uniform_sample_column lib glob X n_samples rs = Inr (col, g')"
    by blast
  from uniform_sound [OF c] c show ?thesis by simp
qed

theorem uniform_values_in_range_witness:
  "\<exists>col g'. uniform_sample_column lcg 0 [3, 5, 8] (Some 2) (RS_Int 12345) = Inr (col, g')
     \<and> length col = 2 \<and> (\<forall>v\<in>set col. 3 \<le> v \<and> v \<le> 8)"
  using uniform_values_in_range [of "[3, 5, 8]" lcg 0 "Some 2" "RS_Int 12345"] by simp

text \<open>
  C7, as amended. For an array with at least one row, or with no column, and a method
  among bootstrap and uniform, the generator returns an array of the shape of its input
  (rectangular when the input is).
\<close>

theorem synthetic_features_shape:
  assumes "meth = ''bootstrap'' \<or> meth = ''uniform''"
    and "0 < nrows X \<or> ncols X = 0"
  shows "\<exists>S g'. generate_synthetic_features lib glob X meth rs = Inr (S, g')
           \<and> shape S = shape X \<and> (rectangular X \<longrightarrow> rectangular S)"
proof -
  from generate_synthetic_features_returns [OF assms, where lib=lib and glob=glob and rs=rs]
  obtain S g' where s: "generate_synthetic_features lib glob X meth rs = Inr (S, g')"
    by blast
  from generate_synthetic_features_shape [OF s] s show ?thesis by (simp add: shape_def)
qed

theorem synthetic_features_shape_witness:
  "\<exists>S g'. generate_synthetic_features lcg 0 (Array2 2 [[1, 2], [3, 4], [5, 6]]) ''uniform''
             (RS_Int 12345) = Inr (S, g')
     \<and> shape S = (3, 2) \<and> rectangular S"
  using synthetic_features_shape [of "''uniform''" "Array2 2 [[1, 2], [3, 4], [5, 6]]" lcg 0
      "RS_Int 12345"]
  by (simp add: shape_def nrows_def rectangular_def numeral_3_eq_3)

text \<open>
  C7, as stated, fails on an array with no row and one column under the uniform
  strategy: the minimum of the empty column is undefined and the generator raises.
\<close>

theorem synthetic_features_no_rows_counterexample:
  "generate_synthetic_features lcg 0 (Array2 1 []) ''uniform'' (RS_Int 12345) = Inl ValueError"
  by code_simp

text \<open>
  C2. The method name is tested inside the loop over the columns, so on an array without
  columns an unknown name is never tested: the call with the method \<open>gaussian\<close> returns
  an array and raises nothing.
\<close>

theorem unknown_method_accepted_without_columns:
  "generate_synthetic_features lib glob (Array2 0 [[], [], []]) ''gaussian'' (RS_Int 12345)
     = Inr (Array2 0 [[], [], []], init_by_seed lib 12345)"
  by (simp add: generate_synthetic_features_def check_random_state_def empty_like_def)

text \<open>
  C1. What the builder hands to the shuffling step is the input's rows followed by the
  synthetic rows, each block in its own order, with the labels \<open>n\<close> ones followed by \<open>n\<close>
  zeros: position \<open>i\<close> below \<open>n\<close> holds row \<open>i\<close> of the input with label 1, position
  \<open>n + i\<close> holds row \<open>i\<close> of the synthetic array with label 0.
\<close>

theorem builder_stacks_real_then_synthetic:
  assumes "generate_discriminative_dataset lib glob X meth rs = Inr (out, g2)"
  shows "\<exists>synth_X g1.
           generate_synthetic_features lib glob X meth
             (RS_Instance (check_random_state lib glob rs)) = Inr (synth_X, g1)
         \<and> nrows synth_X = nrows X
         \<and> stack_and_label X synth_X (nrows X)
             = Inr (Array2 (ncols X) (rowlist X @ rowlist synth_X),
                    replicate (nrows X) 1 @ replicate (nrows X) 0)
         \<and> shuffle_rows lib (Array2 (ncols X) (rowlist X @ rowlist synth_X))
             (replicate (nrows X) 1 @ replicate (nrows X) 0) g1 = Inr (out, g2)
         \<and> (\<forall>i<nrows X.
               (rowlist X @ rowlist synth_X) ! i = rowlist X ! i
             \<and> (replicate (nrows X) (1::real) @ replicate (nrows X) 0) ! i = 1
             \<and> (rowlist X @ rowlist synth_X) ! (nrows X + i) = rowlist synth_X ! i
             \<and> (replicate (nrows X) (1::real) @ replicate (nrows X) 0) ! (nrows X + i) = 0)"
proof -
  from builder_steps [OF assms] obtain synth_X g1 where
    s: "generate_synthetic_features lib glob X meth
          (RS_Instance (check_random_state lib glob rs)) = Inr (synth_X, g1)"
    and n: "nrows synth_X = nrows X"
    and sh: "shuffle_rows lib (Array2 (ncols X) (rowlist X @ rowlist synth_X))
          (replicate (nrows X) 1 @ replicate (nrows X) 0) g1 = Inr (out, g2)"
    by blast
  have "\<forall>i<nrows X.
          (rowlist X @ rowlist synth_X) ! i = rowlist X ! i
        \<and> (replicate (nrows X) (1::real) @ replicate (nrows X) 0) ! i = 1
        \<and> (rowlist X @ rowlist synth_X) ! (nrows X + i) = rowlist synth_X ! i
        \<and> (replicate (nrows X) (1::real) @ replicate (nrows X) 0) ! (nrows X + i) = 0"
    by (simp add: nth_append nrows_def)
  with s n sh stack_and_label_value [OF s] show ?thesis by blast
qed

theorem builder_stacks_real_then_synthetic_witness:
  "\<exists>synth_X g1.
     generate_synthetic_features lcg 0 (Array2 2 [[1, 2], [3, 4], [5, 6]]) ''bootstrap''
       (RS_Instance 1234) = Inr (synth_X, g1)
   \<and> nrows synth_X = 3
   \<and> stack_and_label (Array2 2 [[1, 2], [3, 4], [5, 6]]) synth_X 3
       = Inr (Array2 2 ([[1, 2], [3, 4], [5, 6]] @ rowlist synth_X), [1, 1, 1, 0, 0, 0])
   \<and> shuffle_rows lcg (Array2 2 ([[1, 2], [3, 4], [5, 6]] @ rowlist synth_X))
       [1, 1, 1, 0, 0, 0] g1
       = Inr ((Array2 2 [[5, 6], [1, 2], [1, 2], [1, 2], [3, 4], [3, 6]],
               [1, 0, 1, 0, 1, 0]), 353184145)"
proof -
  have n: "nrows (Array2 2 [[1, 2], [3, 4], [5, 6]]) = 3" by (simp add: nrows_def)
  have r: "replicate 3 (1::real) @ replicate 3 0 = [1, 1, 1, 0, 0, 0]"
    by (simp add: numeral_3_eq_3)
  from builder_stacks_real_then_synthetic [OF run_builder] show ?thesis
    unfolding n r run_seed ndarray.sel
    by (elim exE conjE) (intro exI conjI, assumption+)
qed

text \<open>
  C3. Whatever the generator draws, the matrix the builder returns has twice the rows of
  the input and its columns, and the label vector it returns has twice as many entries
  as the input has rows, as many of them 1 as 0.
\<close>

theorem builder_shape_and_balance:
  assumes "generate_discriminative_dataset lib glob X meth rs = Inr ((XP, yP), g2)"
  shows "shape XP = (2 * nrows X, ncols X) \<and> length yP = 2 * nrows X
           \<and> count_list yP 1 = nrows X \<and> count_list yP 0 = nrows X"
proof -
  from builder_permutation [OF assms] obtain synth_X perm where
    m: "mset perm = mset [0..<2 * nrows X]"
    and X: "XP = Array2 (ncols X) (map (\<lambda>i. (rowlist X @ rowlist synth_X) ! i) perm)"
    and y: "yP = map (\<lambda>i. (replicate (nrows X) 1 @ replicate (nrows X) 0) ! i) perm"
    by blast
  let ?y = "replicate (nrows X) (1::real) @ replicate (nrows X) 0"
  from m have "size (mset perm) = size (mset [0..<2 * nrows X])" by simp
  then have len: "length perm = 2 * nrows X" by simp
  have l: "length ?y = 2 * nrows X" by simp
  from m have "mset perm = mset [0..<length ?y]" unfolding l .
  from take_idx_permuted [OF this] y have "mset yP = mset ?y" by simp
  then have "count_list yP 1 = count_list ?y 1" "count_list yP 0 = count_list ?y 0"
    by (rule mset_count_list)+
  with labels_balanced [of "nrows X"] X y len show ?thesis
    by (simp add: shape_def nrows_def)
qed

theorem builder_shape_and_balance_witness:
  "shape (Array2 2 [[5, 6], [1, 2], [1, 2], [1, 2], [3, 4], [3, 6 :: real]]) = (6, 2)
   \<and> length [1, 0, 1, 0, 1, 0 :: real] = 6
   \<and> count_list [1, 0, 1, 0, 1, 0 :: real] 1 = 3
   \<and> count_list [1, 0, 1, 0, 1, 0 :: real] 0 = 3"
  using builder_shape_and_balance [OF run_builder] by (simp add: nrows_def)

text \<open>
  C4. The builder draws one permutation of the \<open>2n\<close> row positions and indexes both the
  stacked matrix and the label vector with it: position \<open>k\<close> of the output holds the
  stacked row and the label of the one position \<open>perm ! k\<close>, and \<open>k \<mapsto> perm ! k\<close> is a
  bijection on the positions.
\<close>

theorem builder_shared_permutation:
  assumes "generate_discriminative_dataset lib glob X meth rs = Inr ((XP, yP), g2)"
  shows "\<exists>synth_X g1 perm.
           generate_synthetic_features lib glob X meth
             (RS_Instance (check_random_state lib glob rs)) = Inr (synth_X, g1)
         \<and> permutation lib [0..<2 * nrows X] g1 = (perm, g2)
         \<and> bij_betw (\<lambda>k. perm ! k) {..<2 * nrows X} {..<2 * nrows X}
         \<and> nrows XP = 2 * nrows X \<and> length yP = 2 * nrows X
         \<and> (\<forall>k<2 * nrows X.
               rowlist XP ! k = (rowlist X @ rowlist synth_X) ! (perm ! k)
             \<and> yP ! k = (replicate (nrows X) 1 @ replicate (nrows X) 0) ! (perm ! k))"
proof -
  from builder_permutation [OF assms] obtain synth_X g1 perm where
    s: "generate_synthetic_features lib glob X meth
          (RS_Instance (check_random_state lib glob rs)) = Inr (synth_X, g1)"
    and p: "permutation lib [0..<2 * nrows X] g1 = (perm, g2)"
    and X: "XP = Array2 (ncols X) (map (\<lambda>i. (rowlist X @ rowlist synth_X) ! i) perm)"
    and y: "yP = map (\<lambda>i. (replicate (nrows X) 1 @ replicate (nrows X) 0) ! i) perm"
    by blast
  note ix = permutation_indices [OF p]
  from ix have "bij_betw (\<lambda>k. perm ! k) {..<2 * nrows X} {..<2 * nrows X}"
    by (intro bij_betw_nth) simp_all
  moreover from X y ix(1) have "nrows XP = 2 * nrows X" "length yP = 2 * nrows X"
    by (simp_all add: nrows_def)
  moreover from X y ix(1) have "\<forall>k<2 * nrows X.
      rowlist XP ! k = (rowlist X @ rowlist synth_X) ! (perm ! k)
    \<and> yP ! k = (replicate (nrows X) 1 @ replicate (nrows X) 0) ! (perm ! k)"
    by simp
  ultimately show ?thesis using s p by blast
qed

theorem builder_shared_permutation_witness:
  "\<exists>synth_X g1 perm.
     generate_synthetic_features lcg 0 (Array2 2 [[1, 2], [3, 4], [5, 6]]) ''bootstrap''
       (RS_Instance 1234) = Inr (synth_X, g1)
   \<and> permutation lcg [0..<6] g1 = (perm, 353184145)
   \<and> bij_betw (\<lambda>k. perm ! k) {..<6} {..<6}
   \<and> (\<forall>k<6. [[5, 6], [1, 2], [1, 2], [1, 2], [3, 4], [3, 6]] ! k
               = ([[1, 2], [3, 4], [5, 6]] @ rowlist synth_X) ! (perm ! k)
             \<and> [1, 0, 1, 0, 1, 0] ! k = [1, 1, 1, 0, 0, 0 :: real] ! (perm ! k))"
proof -
  have n: "nrows (Array2 2 [[1, 2], [3, 4], [5, 6]]) = 3" by (simp add: nrows_def)
  have m: "2 * (3::nat) = 6" by simp
  have r: "replicate 3 (1::real) @ replicate 3 0 = [1, 1, 1, 0, 0, 0]"
    by (simp add: numeral_3_eq_3)
  from builder_shared_permutation [OF run_builder] show ?thesis
    unfolding n m r run_seed ndarray.sel
    by (elim exE conjE) (intro exI conjI, assumption+)
qed

text \<open>
  C8. With an integer seed the builder's result, the generator state it ends in
  included, does not depend on the state of the process-wide generator, so a second
  call with the same seed, method and input returns the same pair whatever happened in
  between; and such a call leaves the process-wide generator as it found it.
\<close>

theorem builder_deterministic_for_seed:
  "generate_discriminative_dataset lib glob1 X meth (RS_Int seed)
     = generate_discriminative_dataset lib glob2 X meth (RS_Int seed)
   \<and> global_after (RS_Int seed) glob1 g' = glob1"
  by (simp add: global_after_def builder_ambient [of lib glob1 X meth seed glob2])

text \<open>
  Without a seed the builder draws from the process-wide generator, and its result
  changes with that generator's state.
\<close>

lemma run_synthetic_ambient:
  "generate_synthetic_features lcg 0 (Array2 1 [[1], [2]]) ''bootstrap'' (RS_Instance 0)
     = Inr (Array2 1 [[2], [1]], 1406932606)"
  "generate_synthetic_features lcg 1 (Array2 1 [[1], [2]]) ''bootstrap'' (RS_Instance 1)
     = Inr (Array2 1 [[1], [2]], 377401575)"
  by code_simp+

lemma run_shuffle_rows_ambient:
  "shuffle_rows lcg (Array2 1 [[1], [2], [2], [1]]) [1, 1, 0, 0] 1406932606
     = Inr ((Array2 1 [[1], [2], [2], [1]], [1, 0, 1, 0]), 229283573)"
  "shuffle_rows lcg (Array2 1 [[1], [2], [1], [2]]) [1, 1, 0, 0] 377401575
     = Inr ((Array2 1 [[1], [2], [2], [1]], [0, 0, 1, 1]), 2035015474)"
  by code_simp+

lemma builder_depends_on_ambient_generator:
  "generate_discriminative_dataset lcg 0 (Array2 1 [[1], [2]]) ''bootstrap'' RS_None
     \<noteq> generate_discriminative_dataset lcg 1 (Array2 1 [[1], [2]]) ''bootstrap'' RS_None"
  unfolding generate_discriminative_dataset_def Let_def
  by (simp add: check_random_state_def run_synthetic_ambient stack_and_label_def vstack_def
        nrows_def run_shuffle_rows_ambient del: One_nat_def)

text \<open>
  C9. On an estimator that holds no fitted tree, as every freshly constructed one does,
  \<open>transform\<close> fails with \<open>NotFittedError\<close> for every input and never reaches the
  manifold reduction.
\<close>

theorem transform_before_fit:
  assumes "estimators self = []"
  shows "transform sk self X n_components = Inl NotFittedError"
  using assms by (simp add: transform_def decision_path_def)

theorem transform_before_fit_witness:
  "estimators (RandomForest2Embedding :: (nat, nat) embedder) = []
   \<and> (\<forall>sk X n_components.
        transform sk (RandomForest2Embedding :: (nat, nat) embedder) X n_components
          = Inl NotFittedError)"
proof -
  have e: "estimators (RandomForest2Embedding :: (nat, nat) embedder) = []"
    by (simp add: RandomForest2Embedding_def)
  from transform_before_fit [OF e] e show ?thesis by simp
qed

lemma transform_after_fit:
  assumes "estimators self \<noteq> []"
  shows "transform sk self X n_components
           = (case forest_paths sk (estimators self) X of
                Inl e \<Rightarrow> Inl e
              | Inr path \<Rightarrow> tsne sk n_components path)"
  using assms
  by (simp add: transform_def decision_path_def calcul_embedding_def split: sum.splits)

lemma training_dataset_seed:
  "training_dataset lib glob (self\<lparr>random_state := r\<rparr>) X
     = generate_discriminative_dataset lib glob' X (method' self) (RS_Int 1234)"
  by (simp add: training_dataset_def builder_ambient [of lib glob X _ 1234 glob'])

lemma fit_transform_builder_error:
  assumes "check_array sk X = Inr Xc"
    and "generate_discriminative_dataset lib glob' Xc (method' self) (RS_Int 1234) = Inl e"
  shows "fit_transform lib sk glob (self\<lparr>random_state := r\<rparr>) X sample_weight n_components
           = Inl e"
proof -
  from assms(2) have "training_dataset lib glob (self\<lparr>random_state := r\<rparr>) Xc = Inl e"
    by (simp only: training_dataset_seed [where glob' = glob'])
  with assms(1) show ?thesis by (simp add: fit_transform_def)
qed

text \<open>
  C10. Let the validated input be \<open>Xc\<close> and let \<open>(X', y')\<close> be what the builder returns
  for \<open>Xc\<close>, the method of the estimator and the seed 1234, under any state of the
  process-wide generator. Then, whatever \<open>random_state\<close> the estimator is configured
  with, \<open>fit_transform\<close> hands exactly \<open>(X', y')\<close> to the forest's training step, and its
  result is that step's result followed by \<open>transform\<close> on \<open>Xc\<close>: the configured
  \<open>random_state\<close> reaches the training step only inside the estimator, never the
  dataset.
\<close>

theorem fit_transform_trains_on_seed_1234:
  assumes "check_array sk X = Inr Xc"
    and "generate_discriminative_dataset lib glob' Xc (method' self) (RS_Int 1234)
           = Inr ((X', y'), g)"
  shows "fit_transform lib sk glob (self\<lparr>random_state := r\<rparr>) X sample_weight n_components
           = (case forest_fit sk (self\<lparr>random_state := r\<rparr>) X' y' sample_weight glob of
                Inl e \<Rightarrow> Inl e
              | Inr (trees, glob2) \<Rightarrow>
                  (case transform sk (self\<lparr>random_state := r, estimators := trees\<rparr>) Xc
                          n_components of
                     Inl e \<Rightarrow> Inl e
                   | Inr emb \<Rightarrow>
                       Inr (emb, self\<lparr>random_state := r, estimators := trees\<rparr>, glob2)))"
proof -
  from assms(2) have
    "training_dataset lib glob (self\<lparr>random_state := r\<rparr>) Xc = Inr ((X', y'), g)"
    by (simp only: training_dataset_seed [where glob' = glob'])
  with assms(1) show ?thesis
    by (simp add: fit_transform_def Let_def split: sum.splits prod.splits)
qed

theorem fit_transform_trains_on_seed_1234_witness:
  "fit_transform lcg recording_sklearn 0 (RandomForest2Embedding\<lparr>random_state := RS_Int 7\<rparr>)
     (Array2 2 [[1, 2], [3, 4], [5, 6]]) None 2
   = Inr ([[0, 0], [0, 0], [0, 0]],
          RandomForest2Embedding
            \<lparr>random_state := RS_Int 7,
             estimators := [(Array2 2 [[5, 6], [1, 2], [1, 2], [1, 2], [3, 4], [3, 6]],
                             [1, 0, 1, 0, 1, 0])]\<rparr>,
          0)"
proof -
  let ?X = "Array2 2 [[1, 2], [3, 4], [5, 6]]"
  let ?self = "RandomForest2Embedding :: (nat, ndarray \<times> real list) embedder"
  have c: "check_array recording_sklearn ?X = Inr ?X" by (simp add: recording_sklearn_def)
  have m: "method' ?self = ''bootstrap''" by (simp add: RandomForest2Embedding_def)
  have d: "generate_discriminative_dataset lcg 0 ?X (method' ?self) (RS_Int 1234)
             = Inr ((Array2 2 [[5, 6], [1, 2], [1, 2], [1, 2], [3, 4], [3, 6]],
                     [1, 0, 1, 0, 1, 0]), 353184145)"
    unfolding m by (rule run_builder)
  from fit_transform_trains_on_seed_1234 [OF c d, of 0 "RS_Int 7" None 2] show ?thesis
    by (simp add: recording_sklearn_def transform_def decision_path_def calcul_embedding_def
          numeral_2_eq_2)
qed

text \<open>
  With the recording stand-in the trained forest is the training set itself, so two
  estimators that differ only in \<open>random_state\<close> are observed to train on the same pair.
\<close>

lemma fit_transform_same_training_set:
  assumes "fit_transform lib recording_sklearn glob1 (self\<lparr>random_state := r1\<rparr>) X
             sample_weight n_components = Inr (emb1, self1, g1)"
    and "fit_transform lib recording_sklearn glob2 (self\<lparr>random_state := r2\<rparr>) X
             sample_weight n_components = Inr (emb2, self2, g2)"
  shows "estimators self1 = estimators self2"
  using assms unfolding fit_transform_def
  by (auto simp: recording_sklearn_def transform_def decision_path_def calcul_embedding_def
        Let_def training_dataset_seed [where glob' = 0] split: sum.splits prod.splits)

end
